theory Spec2Isabelle
  imports Main "HOL-Library.AList" "HOL-Library.Sublist"
begin

section \<open>Raw snapshot values\<close>

text \<open>
  A value read from the remote tree (\<^verbatim>\<open>snapshot.val()\<close>, typed \<^verbatim>\<open>unknown\<close> in the
  source) is a JavaScript value: absent (\<^verbatim>\<open>undefined\<close>), \<^verbatim>\<open>null\<close>, a boolean, a number,
  a string, an array or a keyed object. A keyed object is the list of its entries in the
  order \<^verbatim>\<open>Object.values\<close> and \<^verbatim>\<open>Object.keys\<close> enumerate them. Numbers are never
  inspected by the code below; they are integers here.
\<close>

datatype json =
    JUndefined
  | JNull
  | JBool bool
  | JNum int
  | JStr string
  | JArr "json list"
  | JObj "(string \<times> json) list"

text \<open>
  The filter predicate of \<^verbatim>\<open>normalizeStringList\<close>:
  \<^verbatim>\<open>(v): v is string => typeof v === 'string' && v.length > 0\<close>.
\<close>

fun isNonEmptyString :: "json \<Rightarrow> bool" where
  "isNonEmptyString (JStr s) = (0 < length s)"
| "isNonEmptyString _ = False"

text \<open>
  The type guard \<^verbatim>\<open>v is string\<close> retypes the kept elements as strings; it is only ever
  applied to elements that passed \<open>isNonEmptyString\<close>.
\<close>

fun asString :: "json \<Rightarrow> string" where
  "asString (JStr s) = s"
| "asString _ = []"

text \<open>
  \<^verbatim>\<open>normalizeStringList(value: unknown): string[]\<close>, the same text in the settings
  component and in the layout component:
  \<^verbatim>\<open>
    if (Array.isArray(value)) return value.filter(p);
    if (value && typeof value === 'object') return Object.values(value).filter(p);
    return [];
  \<close>
  \<^verbatim>\<open>null\<close> has type \<^verbatim>\<open>'object'\<close> but is falsy, so it takes the last branch, as every
  scalar does.
\<close>

fun normalizeStringList :: "json \<Rightarrow> string list" where
  "normalizeStringList (JArr xs) = map asString (filter isNonEmptyString xs)"
| "normalizeStringList (JObj kvs) = map asString (filter isNonEmptyString (map snd kvs))"
| "normalizeStringList _ = []"

section \<open>Collaborators and application state\<close>

text \<open>
  A promise settles in one of two ways. A rejection carries the thrown value; the handlers
  of the source read it with \<^verbatim>\<open>e instanceof Error ? e.message : String(e)\<close>, so a
  rejection is either an \<^verbatim>\<open>Error\<close> with its message or another value with its string
  rendering.
\<close>

datatype rejection = JsError string | OtherReason string

fun errorMessage :: "rejection \<Rightarrow> string" where
  "errorMessage (JsError m) = m"
| "errorMessage (OtherReason r) = r"

datatype 'a promise = Fulfilled 'a | Rejected rejection

record firebaseUser =
  uid :: string

text \<open>\<^verbatim>\<open>ChipOption\<close>: \<^verbatim>\<open>{ value: string, removable: boolean }\<close>.\<close>

record chipOption =
  chip_value :: string
  removable :: bool

record userDetails =
  firstName :: json
  lastName :: json

text \<open>
  A JavaScript \<^verbatim>\<open>Record<string, T>\<close> is the list of its entries in enumeration order.
  Assigning \<^verbatim>\<open>obj[k] = v\<close> replaces the value of an existing key where it stands and
  appends a new key, which is \<open>AList.update\<close>.
\<close>

type_synonym 'v jsRecord = "(string \<times> 'v) list"

text \<open>
  The calls that reach the remote store, in the order they are issued:
  \<^verbatim>\<open>ref(path).once('value')\<close>, \<^verbatim>\<open>ref(path).set(list)\<close> and \<^verbatim>\<open>ref().update(map)\<close>, whose
  values are an expense or \<^verbatim>\<open>null\<close>. \<^verbatim>\<open>ref(path).push()\<close> without a value only allocates
  a key and is counted apart.
\<close>

datatype 'e store_op =
    OnceValue string
  | SetList string "string list"
  | MultiUpdate "('e option) jsRecord"

text \<open>
  The state the three source files read and write: the user service, the expense data
  service, the database service (the store calls issued, the keys allocated, the messages
  sent on \<^verbatim>\<open>categoriesAddedSource\<close>), the snack bar (message and duration of every
  \<^verbatim>\<open>open\<close>), and the signals and flags of the settings component.
\<close>

record 'e world =
  us_user :: "firebaseUser option"
  us_userId :: "string option"
  us_userDetails :: "userDetails option"
  ds_expenses :: "'e list"
  ds_timeFrameFilter :: "json option"
  ds_filesImported :: "string list"
  ds_categories :: "string list"
  ds_expenseSources :: "string list"
  db_calls :: "'e store_op list"
  db_pushCount :: nat
  categoriesAddedSource :: "string list"
  snackBar_opened :: "(string \<times> nat) list"
  categoriesSignal :: "chipOption list"
  copyCategoriesSignal :: "chipOption list"
  sourceTypeSignal :: "chipOption list"
  sourceTypeSignalOriginal :: "chipOption list"
  isLoadingUserInformation :: bool
  isLoadingUserCategories :: bool
  isUpdatingCategories :: bool
  isUpdatingSourceTypes :: bool

text \<open>
  Modelled from the spec: the setters of \<^verbatim>\<open>UserService\<close> and \<^verbatim>\<open>ExpenseDataService\<close>,
  whose source files are not among the three given. The canonical in-memory values are
  "replaced wholesale": each setter stores the value it is given, and \<^verbatim>\<open>getUser\<close>,
  \<^verbatim>\<open>getUserId\<close> return what is stored.
\<close>

definition setUser :: "firebaseUser option \<Rightarrow> 'e world \<Rightarrow> 'e world" where
  "setUser x w = w\<lparr>us_user := x\<rparr>"

definition setUserId :: "string \<Rightarrow> 'e world \<Rightarrow> 'e world" where
  "setUserId x w = w\<lparr>us_userId := Some x\<rparr>"

definition setUserDetails :: "userDetails \<Rightarrow> 'e world \<Rightarrow> 'e world" where
  "setUserDetails x w = w\<lparr>us_userDetails := Some x\<rparr>"

definition setExpensesData :: "'e list \<Rightarrow> 'e world \<Rightarrow> 'e world" where
  "setExpensesData x w = w\<lparr>ds_expenses := x\<rparr>"

definition setTimeFrameFilter :: "json option \<Rightarrow> 'e world \<Rightarrow> 'e world" where
  "setTimeFrameFilter x w = w\<lparr>ds_timeFrameFilter := x\<rparr>"

definition setFilesImported :: "string list \<Rightarrow> 'e world \<Rightarrow> 'e world" where
  "setFilesImported x w = w\<lparr>ds_filesImported := x\<rparr>"

definition setCategoriesSignal :: "string list \<Rightarrow> 'e world \<Rightarrow> 'e world" where
  "setCategoriesSignal x w = w\<lparr>ds_categories := x\<rparr>"

definition setExpenseSourcesData :: "string list \<Rightarrow> 'e world \<Rightarrow> 'e world" where
  "setExpenseSourcesData x w = w\<lparr>ds_expenseSources := x\<rparr>"

text \<open>
  \<^verbatim>\<open>this.userService.getUser()?.uid || this.userService.getUserId()\<close>, followed in every
  caller by the test \<^verbatim>\<open>if (!uid)\<close>: \<open>None\<close> when the result is falsy (no user and no
  stored id, or empty strings), the id otherwise.
\<close>

fun truthyString :: "string option \<Rightarrow> string option" where
  "truthyString None = None"
| "truthyString (Some s) = (if s = [] then None else Some s)"

definition resolveUid :: "'e world \<Rightarrow> string option" where
  "resolveUid w =
     (case truthyString (map_option uid (us_user w)) of
        Some u \<Rightarrow> Some u
      | None \<Rightarrow> truthyString (us_userId w))"

subsection \<open>DatabaseService\<close>

definition announceCategoriesAdded :: "string \<Rightarrow> 'e world \<Rightarrow> 'e world" where
  "announceCategoriesAdded message w =
     w\<lparr>categoriesAddedSource := categoriesAddedSource w @ [message]\<rparr>"

definition saveNewCategories :: "string list \<Rightarrow> string \<Rightarrow> 'e world \<Rightarrow> 'e world" where
  "saveNewCategories categories u w =
     w\<lparr>db_calls := db_calls w @ [SetList (''users/'' @ u @ ''/categories'') categories]\<rparr>"

definition saveNewExpenseSourceTypes :: "string list \<Rightarrow> string \<Rightarrow> 'e world \<Rightarrow> 'e world" where
  "saveNewExpenseSourceTypes types u w =
     w\<lparr>db_calls := db_calls w @ [SetList (''users/'' @ u @ ''/types'') types]\<rparr>"

definition getUserDetailsById :: "string \<Rightarrow> 'e world \<Rightarrow> 'e world" where
  "getUserDetailsById u w = w\<lparr>db_calls := db_calls w @ [OnceValue (''users/'' @ u)]\<rparr>"

text \<open>
  A change stream is the list of its events, each with the time it arrives, in arrival
  order; an emission carries the time it is delivered. The stream does not end, so the last
  event of a list is emitted once its quiet window has passed.
\<close>

text \<open>
  Modelled from the spec: the stream operators \<^verbatim>\<open>debounceTime\<close> and
  \<^verbatim>\<open>distinctUntilChanged\<close>, which the source takes from the rxjs library and which are not
  among the sources given. "Events arriving within a fixed quiet window are buffered and
  only the final state in the window is emitted": an event followed by another less than
  \<open>d\<close> time units later is dropped in favour of the later one, and an event followed by
  none within \<open>d\<close> is emitted \<open>d\<close> after it arrived.
\<close>

fun debounceTime :: "nat \<Rightarrow> (nat \<times> 'a) list \<Rightarrow> (nat \<times> 'a) list" where
  "debounceTime d [] = []"
| "debounceTime d [(t, x)] = [(t + d, x)]"
| "debounceTime d ((t, x) # (t', y) # rest) =
     (if t' < t + d then debounceTime d ((t', y) # rest)
      else (t + d, x) # debounceTime d ((t', y) # rest))"

text \<open>
  Modelled from the spec: "an emission is suppressed entirely if its content is
  structurally identical to the immediately preceding emission". The first value is
  emitted; a later value is compared with the value emitted last (\<open>prev\<close>) by the
  comparator the caller supplies, and dropped when the comparator holds.
\<close>

fun distinctFrom :: "('a \<Rightarrow> 'a \<Rightarrow> bool) \<Rightarrow> 'a \<Rightarrow> 'a list \<Rightarrow> 'a list" where
  "distinctFrom comparator prev [] = []"
| "distinctFrom comparator prev (cur # rest) =
     (if comparator prev cur then distinctFrom comparator prev rest
      else cur # distinctFrom comparator cur rest)"

fun distinctUntilChanged :: "('a \<Rightarrow> 'a \<Rightarrow> bool) \<Rightarrow> 'a list \<Rightarrow> 'a list" where
  "distinctUntilChanged comparator [] = []"
| "distinctUntilChanged comparator (first # rest) = first # distinctFrom comparator first rest"

text \<open>
  \<^verbatim>\<open>getUserExpenses\<close>: the changes of the list at \<^verbatim>\<open>`users/${userId}/expenses`\<close>, piped
  through \<^verbatim>\<open>debounceTime(500)\<close> and \<^verbatim>\<open>distinctUntilChanged\<close> with the comparator
  \<^verbatim>\<open>(prev, curr) => JSON.stringify(prev) === JSON.stringify(curr)\<close>. \<open>snapshotChanges\<close>
  gives the change stream of the list at a path and \<open>stringify\<close> stands for
  \<^verbatim>\<open>JSON.stringify\<close>.
\<close>

definition getUserExpenses ::
  "('a \<Rightarrow> string) \<Rightarrow> (string \<Rightarrow> (nat \<times> 'a) list) \<Rightarrow> string \<Rightarrow> (nat \<times> 'a) list" where
  "getUserExpenses stringify snapshotChanges userId =
     distinctUntilChanged (\<lambda>prev curr. stringify (snd prev) = stringify (snd curr))
       (debounceTime 500 (snapshotChanges (''users/'' @ userId @ ''/expenses'')))"

text \<open>The path \<^verbatim>\<open>`users/${uid}/expenses/${k}`\<close>.\<close>

definition expensePath :: "string \<Rightarrow> string \<Rightarrow> string" where
  "expensePath u k = ''users/'' @ u @ ''/expenses/'' @ k"

text \<open>
  The arguments of the overloaded \<^verbatim>\<open>batchUpdateExpenses(a, b?)\<close>: \<^verbatim>\<open>a\<close> is a string
  (the user id), an updates record, or nullish; \<^verbatim>\<open>b\<close> is an updates record or absent.
\<close>

datatype 'e batch_arg =
    UserIdArg string
  | UpdatesArg "('e option) jsRecord"
  | NullishArg

text \<open>\<^verbatim>\<open>updates[k]\<close> for a key \<^verbatim>\<open>k\<close> of \<^verbatim>\<open>Object.keys(updates)\<close>.\<close>

definition recordGet :: "('e option) jsRecord \<Rightarrow> string \<Rightarrow> 'e option" where
  "recordGet updates k = (case map_of updates k of Some v \<Rightarrow> v | None \<Rightarrow> None)"

text \<open>
  \<^verbatim>\<open>for (const k of Object.keys(updates)) scoped[`users/${uid}/expenses/${k}`] = updates[k];\<close>
\<close>

fun scopeKeys :: "string \<Rightarrow> ('e option) jsRecord \<Rightarrow> string list \<Rightarrow> ('e option) jsRecord
    \<Rightarrow> ('e option) jsRecord" where
  "scopeKeys u updates [] scoped = scoped"
| "scopeKeys u updates (k # ks) scoped =
     scopeKeys u updates ks (AList.update (expensePath u k) (recordGet updates k) scoped)"

text \<open>
  \<^verbatim>\<open>batchUpdateExpenses\<close>. \<open>authUser\<close> is what \<^verbatim>\<open>await this.afAuth.currentUser\<close> gives
  and \<open>remote\<close> how the store settles the update. The result is how the returned promise
  settles, with the state after the call; \<^verbatim>\<open>throw new Error('Not signed in')\<close> rejects it
  before any store call.
\<close>

definition batchUpdateExpenses ::
  "'e batch_arg \<Rightarrow> ('e option) jsRecord option \<Rightarrow> firebaseUser option \<Rightarrow> unit promise
     \<Rightarrow> 'e world \<Rightarrow> unit promise \<times> 'e world" where
  "batchUpdateExpenses a b authUser remote w =
     (let submit = (\<lambda>u updates.
            (remote, w\<lparr>db_calls := db_calls w
                @ [MultiUpdate (scopeKeys u updates (map fst updates) [])]\<rparr>));
          legacy = (\<lambda>updates.
            (case truthyString (map_option uid authUser) of
               None \<Rightarrow> (Rejected (JsError ''Not signed in''), w)
             | Some u \<Rightarrow> submit u updates))
      in case a of
           UserIdArg u \<Rightarrow> submit u (case b of Some updates \<Rightarrow> updates | None \<Rightarrow> [])
         | UpdatesArg updates \<Rightarrow> legacy updates
         | NullishArg \<Rightarrow> legacy [])"

text \<open>
  \<^verbatim>\<open>batchPushExpensesWithBatch\<close>. \<open>keygen n\<close> is the \<^verbatim>\<open>key\<close> of the \<open>n\<close>-th
  \<^verbatim>\<open>baseRef.push()\<close> the service performs (a string or \<^verbatim>\<open>null\<close>); the loop is the
  \<^verbatim>\<open>forEach\<close>, which skips an expense whose key is falsy.
\<close>

fun pushKeys :: "(nat \<Rightarrow> string option) \<Rightarrow> string \<Rightarrow> 'e list \<Rightarrow> nat \<Rightarrow> ('e option) jsRecord
    \<Rightarrow> nat \<times> ('e option) jsRecord" where
  "pushKeys keygen u [] n updates = (n, updates)"
| "pushKeys keygen u (expense # rest) n updates =
     (case truthyString (keygen n) of
        Some newKey \<Rightarrow>
          pushKeys keygen u rest (Suc n) (AList.update (expensePath u newKey) (Some expense) updates)
      | None \<Rightarrow> pushKeys keygen u rest (Suc n) updates)"

definition batchPushExpensesWithBatch ::
  "(nat \<Rightarrow> string option) \<Rightarrow> 'e list \<Rightarrow> string \<Rightarrow> unit promise \<Rightarrow> 'e world
     \<Rightarrow> unit promise \<times> 'e world" where
  "batchPushExpensesWithBatch keygen expenses u remote w =
     (case pushKeys keygen u expenses (db_pushCount w) [] of
        (n, updates) \<Rightarrow>
          (remote, w\<lparr>db_pushCount := n, db_calls := db_calls w @ [MultiUpdate updates]\<rparr>))"

subsection \<open>Settings component\<close>

text \<open>lodash's \<^verbatim>\<open>includes(array, value)\<close> on an array of strings: strict equality.\<close>

definition lodash_includes :: "string list \<Rightarrow> string \<Rightarrow> bool" where
  "lodash_includes xs v = (v \<in> set xs)"

text \<open>\<^verbatim>\<open>this.snackBar.open(message, '', { duration: 2000 })\<close>.\<close>

definition openSnackBar :: "string \<Rightarrow> 'e world \<Rightarrow> 'e world" where
  "openSnackBar message w = w\<lparr>snackBar_opened := snackBar_opened w @ [(message, 2000)]\<rparr>"

definition onUpdateToCategories :: "'e world \<Rightarrow> 'e world" where
  "onUpdateToCategories w = announceCategoriesAdded ''Categories Added'' w"

text \<open>
  \<open>dc\<close> and \<open>dt\<close> stand for the constants \<^verbatim>\<open>defaultExpenseCategories\<close> and
  \<^verbatim>\<open>defaultExpenseTypes\<close>, whose file is not among the sources given.
\<close>

definition setCategoriesOptions :: "string list \<Rightarrow> string list \<Rightarrow> 'e world \<Rightarrow> 'e world" where
  "setCategoriesOptions dc categoriesArr w =
     (let categories =
            map (\<lambda>category. \<lparr>chip_value = category, removable = \<not> lodash_includes dc category\<rparr>)
              categoriesArr;
          w1 = w\<lparr>categoriesSignal := categories\<rparr>;
          w2 = w1\<lparr>copyCategoriesSignal := categories\<rparr>;
          w3 = setCategoriesSignal categoriesArr w2
      in onUpdateToCategories w3)"

definition setSourceTypeOptions :: "string list \<Rightarrow> string list \<Rightarrow> 'e world \<Rightarrow> 'e world" where
  "setSourceTypeOptions dt sourceTypes w =
     (let expenseSourceTypes =
            map (\<lambda>type. \<lparr>chip_value = type, removable = \<not> lodash_includes dt type\<rparr>) sourceTypes;
          w1 = w\<lparr>sourceTypeSignal := expenseSourceTypes\<rparr>
      in w1\<lparr>sourceTypeSignalOriginal := expenseSourceTypes\<rparr>)"

text \<open>
  \<^verbatim>\<open>saveCategories\<close>: the synchronous part, then the \<^verbatim>\<open>then\<close> or the \<^verbatim>\<open>catch\<close>
  callback according to how the store settles the write (\<open>remote\<close>). Here and in the
  other asynchronous operations the callback runs on the state the synchronous part left:
  no other operation of the application is interleaved between the two.
\<close>

definition saveCategories_then :: "'e world \<Rightarrow> 'e world" where
  "saveCategories_then w =
     (let w1 = setCategoriesSignal (map chip_value (categoriesSignal w)) w;
          w2 = w1\<lparr>copyCategoriesSignal := categoriesSignal w1\<rparr>;
          w3 = openSnackBar ''Categories saved!'' w2;
          w4 = onUpdateToCategories w3
      in w4\<lparr>isUpdatingCategories := False\<rparr>)"

definition saveCategories_catch :: "rejection \<Rightarrow> 'e world \<Rightarrow> 'e world" where
  "saveCategories_catch e w =
     (let msg = errorMessage e;
          w1 = openSnackBar msg w
      in w1\<lparr>isUpdatingCategories := False\<rparr>)"

definition saveCategories :: "unit promise \<Rightarrow> 'e world \<Rightarrow> 'e world" where
  "saveCategories remote w =
     (let w1 = w\<lparr>isUpdatingCategories := True\<rparr> in
      case resolveUid w1 of
        None \<Rightarrow> (openSnackBar ''No user id found.'' w1)\<lparr>isUpdatingCategories := False\<rparr>
      | Some u \<Rightarrow>
          (let w2 = saveNewCategories (map chip_value (categoriesSignal w1)) u w1 in
           case remote of
             Fulfilled _ \<Rightarrow> saveCategories_then w2
           | Rejected e \<Rightarrow> saveCategories_catch e w2))"

text \<open>
  How a call of \<^verbatim>\<open>saveCategories\<close> completes for its caller. The method is declared
  without a result and contains no \<^verbatim>\<open>throw\<close>: with no user id it leaves through the
  \<^verbatim>\<open>return\<close> after the snack bar, otherwise it runs to its end, the promise chain (whose
  \<^verbatim>\<open>catch\<close> takes a rejection) being neither returned nor awaited.
\<close>

datatype call_outcome = Returned | Threw rejection

definition saveCategories_outcome :: "unit promise \<Rightarrow> 'e world \<Rightarrow> call_outcome" where
  "saveCategories_outcome remote w =
     (let w1 = w\<lparr>isUpdatingCategories := True\<rparr> in
      case resolveUid w1 of
        None \<Rightarrow> Returned
      | Some u \<Rightarrow> Returned)"




text \<open>
  Reading a snapshot: \<^verbatim>\<open>snapshot.val() ?? {}\<close>, and \<^verbatim>\<open>data.categories\<close> and the like,
  which are \<^verbatim>\<open>undefined\<close> when the key is absent or the value is not a keyed object.
\<close>

fun nullishOr :: "json \<Rightarrow> json \<Rightarrow> json" where
  "nullishOr JUndefined d = d"
| "nullishOr JNull d = d"
| "nullishOr v d = v"

fun getProp :: "json \<Rightarrow> string \<Rightarrow> json" where
  "getProp (JObj kvs) k = (case map_of kvs k of Some v \<Rightarrow> v | None \<Rightarrow> JUndefined)"
| "getProp _ k = JUndefined"

text \<open>
  \<^verbatim>\<open>getAllUserDetails\<close> of the settings component. \<open>remote\<close> is how the single read of
  \<^verbatim>\<open>users/${uid}\<close> settles: with the snapshot's value, or rejected.
\<close>

definition getAllUserDetails_then ::
  "string list \<Rightarrow> string list \<Rightarrow> string \<Rightarrow> json \<Rightarrow> 'e world \<Rightarrow> 'e world" where
  "getAllUserDetails_then dc dt u snapshotVal w =
     (let data = nullishOr snapshotVal (JObj []);
          w1 = setUserId u w;
          categoriesList = normalizeStringList (getProp data ''categories'');
          sourceTypesList = normalizeStringList (getProp data ''types'');
          w2 = setCategoriesOptions dc (if length categoriesList \<noteq> 0 then categoriesList else dc) w1;
          w3 = setSourceTypeOptions dt (if length sourceTypesList \<noteq> 0 then sourceTypesList else dt) w2;
          w4 = w3\<lparr>isLoadingUserInformation := False\<rparr>
      in w4\<lparr>isLoadingUserCategories := False\<rparr>)"

definition getAllUserDetails_catch :: "rejection \<Rightarrow> 'e world \<Rightarrow> 'e world" where
  "getAllUserDetails_catch e w =
     (let w1 = w\<lparr>isLoadingUserInformation := False\<rparr>;
          w2 = w1\<lparr>isLoadingUserCategories := False\<rparr>;
          msg = errorMessage e
      in openSnackBar (''Error! '' @ msg @ ''.'') w2)"

definition getAllUserDetails ::
  "string list \<Rightarrow> string list \<Rightarrow> json promise \<Rightarrow> 'e world \<Rightarrow> 'e world" where
  "getAllUserDetails dc dt remote w =
     (case resolveUid w of
        None \<Rightarrow> w
      | Some u \<Rightarrow>
          (let w1 = w\<lparr>isLoadingUserInformation := True\<rparr>;
               w2 = w1\<lparr>isLoadingUserCategories := True\<rparr>;
               w3 = getUserDetailsById u w2
           in case remote of
                Fulfilled snapshotVal \<Rightarrow> getAllUserDetails_then dc dt u snapshotVal w3
              | Rejected e \<Rightarrow> getAllUserDetails_catch e w3))"

subsection \<open>Layout component\<close>

text \<open>
  \<^verbatim>\<open>getAllUserDetails\<close> of the layout component, which hydrates the shared expense data
  service, the imported-files list included.
\<close>

definition layout_getAllUserDetails_then ::
  "string list \<Rightarrow> string list \<Rightarrow> string \<Rightarrow> json \<Rightarrow> 'e world \<Rightarrow> 'e world" where
  "layout_getAllUserDetails_then dc dt u snapshotVal w =
     (let data = nullishOr snapshotVal (JObj []);
          w1 = setUserId u w;
          w2 = setUserDetails
                 \<lparr>firstName = nullishOr (getProp data ''firstName'') (JStr []),
                  lastName = nullishOr (getProp data ''lastName'') (JStr [])\<rparr> w1;
          categoriesList = normalizeStringList (getProp data ''categories'');
          sourceTypesList = normalizeStringList (getProp data ''types'');
          filesImported = normalizeStringList (getProp data ''filesImported'');
          w3 = setCategoriesSignal (if length categoriesList \<noteq> 0 then categoriesList else dc) w2;
          w4 = setExpenseSourcesData (if length sourceTypesList \<noteq> 0 then sourceTypesList else dt) w3
      in setFilesImported filesImported w4)"

definition layout_getAllUserDetails_catch :: "rejection \<Rightarrow> 'e world \<Rightarrow> 'e world" where
  "layout_getAllUserDetails_catch e w =
     (let msg = errorMessage e
      in w\<lparr>snackBar_opened := snackBar_opened w
            @ [(''Failed to load user details: '' @ msg, 2500)]\<rparr>)"

definition layout_getAllUserDetails ::
  "string list \<Rightarrow> string list \<Rightarrow> json promise \<Rightarrow> 'e world \<Rightarrow> 'e world" where
  "layout_getAllUserDetails dc dt remote w =
     (case resolveUid w of
        None \<Rightarrow> w
      | Some u \<Rightarrow>
          (let w1 = getUserDetailsById u w
           in case remote of
                Fulfilled snapshotVal \<Rightarrow> layout_getAllUserDetails_then dc dt u snapshotVal w1
              | Rejected e \<Rightarrow> layout_getAllUserDetails_catch e w1))"


subsection \<open>Sample states\<close>

text \<open>
  Concrete inputs at which the theorems below are instantiated: a signed-in user \<open>u1\<close>
  with one unsaved category edit, the same state without a usable user id, and a key
  generator that hands out two keys.
\<close>

definition exampleWorld :: "nat world" where
  "exampleWorld =
     \<lparr>us_user = Some \<lparr>uid = ''u1''\<rparr>, us_userId = None, us_userDetails = None,
      ds_expenses = [1, 2], ds_timeFrameFilter = None, ds_filesImported = [''jan.csv''],
      ds_categories = [''Pets''], ds_expenseSources = [''Card''],
      db_calls = [], db_pushCount = 0, categoriesAddedSource = [], snackBar_opened = [],
      categoriesSignal = [\<lparr>chip_value = ''Pets'', removable = True\<rparr>],
      copyCategoriesSignal = [],
      sourceTypeSignal = [], sourceTypeSignalOriginal = [],
      isLoadingUserInformation = False, isLoadingUserCategories = False,
      isUpdatingCategories = False, isUpdatingSourceTypes = False\<rparr>"

definition signedOutWorld :: "nat world" where
  "signedOutWorld = exampleWorld\<lparr>us_user := Some \<lparr>uid = []\<rparr>, us_userId := None\<rparr>"

definition exampleKeygen :: "nat \<Rightarrow> string option" where
  "exampleKeygen n = (if n = 0 then Some ''-Na'' else if n = 1 then Some ''-Nb'' else None)"




definition exampleChanges :: "string \<Rightarrow> (nat \<times> string list) list" where
  "exampleChanges path =
     (if path = ''users/u1/expenses''
      then [(0, [''a'']), (100, [''a'', ''b'']), (450, [''a'', ''b'']), (2000, [''a'', ''b'']),
            (3000, [''c''])]
      else [])"

definition exampleStringify :: "string list \<Rightarrow> string" where
  "exampleStringify xs = concat (map (\<lambda>x. x @ '','') xs)"

section \<open>ListNormalizer\<close>

lemma asString_filter: "map JStr (map asString (filter isNonEmptyString xs)) = filter isNonEmptyString xs"
proof (induction xs)
  case Nil
  show ?case by simp
next
  case (Cons x xs)
  then show ?case by (cases x) simp_all
qed

lemma isNonEmptyString_iff: "isNonEmptyString v = (case v of JStr s \<Rightarrow> s \<noteq> [] | _ \<Rightarrow> False)"
  by (cases v) simp_all

lemma normalized_nonempty: "s \<in> set (map asString (filter isNonEmptyString xs)) \<Longrightarrow> s \<noteq> []"
proof (induction xs)
  case Nil
  then show ?case by simp
next
  case (Cons x xs)
  then show ?case by (cases x) (auto split: if_splits)
qed

text \<open>
  Claim C1. \<open>normalizeStringList\<close> is a total function of the raw value (the source has
  no raising path, and the model has no error value), and every element of its result is
  a non-empty string. Absent, null, number, boolean and plain-string inputs give the empty
  list. For an array the result, read back as raw strings, is exactly the sub-list of the
  array's non-empty-string elements, in the array's order. For a keyed object the result
  is that of the array of its values in iteration order.
\<close>

theorem normalizeStringList_spec:
  "(\<forall>s \<in> set (normalizeStringList v). s \<noteq> [])
   \<and> normalizeStringList JUndefined = []
   \<and> normalizeStringList JNull = []
   \<and> normalizeStringList (JNum n) = []
   \<and> normalizeStringList (JBool b) = []
   \<and> normalizeStringList (JStr t) = []
   \<and> map JStr (normalizeStringList (JArr xs))
       = filter (\<lambda>x. case x of JStr s \<Rightarrow> s \<noteq> [] | _ \<Rightarrow> False) xs
   \<and> normalizeStringList (JObj kvs) = normalizeStringList (JArr (map snd kvs))"
proof -
  have elems: "\<forall>s \<in> set (normalizeStringList v). s \<noteq> []"
  proof
    fix s assume "s \<in> set (normalizeStringList v)"
    then show "s \<noteq> []"
      by (cases v) (simp_all only: normalizeStringList.simps normalized_nonempty list.set empty_iff not_False_eq_True)
  qed
  have pred: "(\<lambda>x. case x of JStr s \<Rightarrow> s \<noteq> [] | _ \<Rightarrow> False) = isNonEmptyString"
    by (rule ext) (simp add: isNonEmptyString_iff)
  have "map JStr (normalizeStringList (JArr xs)) = filter isNonEmptyString xs"
    by (simp only: normalizeStringList.simps asString_filter)
  with pred have arr: "map JStr (normalizeStringList (JArr xs))
       = filter (\<lambda>x. case x of JStr s \<Rightarrow> s \<noteq> [] | _ \<Rightarrow> False) xs"
    by simp
  from elems arr show ?thesis by simp
qed

theorem normalizeStringList_spec_witness:
  "normalizeStringList (JArr [JStr ''Food'', JNum 7, JStr [], JNull, JStr ''Travel''])
     = [''Food'', ''Travel'']
   \<and> ''Food'' \<noteq> [] \<and> ''Travel'' \<noteq> []
   \<and> normalizeStringList (JObj [(''a'', JStr ''x''), (''b'', JStr [])]) = [''x'']
   \<and> normalizeStringList (JNum 42) = []"
  using normalizeStringList_spec
    [of "JArr [JStr ''Food'', JNum 7, JStr [], JNull, JStr ''Travel'']" 42 True "''s''"
        "[JStr ''Food'', JNum 7, JStr [], JNull, JStr ''Travel'']"
        "[(''a'', JStr ''x''), (''b'', JStr [])]"]
  by simp

section \<open>Helper facts\<close>

lemma update_fresh: "k \<notin> fst ` set al \<Longrightarrow> AList.update k v al = al @ [(k, v)]"
  by (induction al) auto

lemma expensePath_inj: "(expensePath u k = expensePath u k') = (k = k')"
  by (simp add: expensePath_def)

lemma scopeKeys_append:
  "distinct ks \<Longrightarrow> (\<forall>k \<in> set ks. expensePath u k \<notin> fst ` set scoped) \<Longrightarrow>
   scopeKeys u updates ks scoped = scoped @ map (\<lambda>k. (expensePath u k, recordGet updates k)) ks"
proof (induction ks arbitrary: scoped)
  case Nil
  then show ?case by simp
next
  case (Cons k ks)
  have fresh: "expensePath u k \<notin> fst ` set scoped" using Cons.prems by simp
  have "\<forall>k' \<in> set ks. expensePath u k' \<notin> fst ` set (scoped @ [(expensePath u k, recordGet updates k)])"
    using Cons.prems by (auto simp: expensePath_inj)
  with Cons.IH [of "scoped @ [(expensePath u k, recordGet updates k)]"] Cons.prems fresh
  show ?case by (simp add: update_fresh)
qed

lemma recordGet_entry:
  "distinct (map fst updates) \<Longrightarrow> (k, v) \<in> set updates \<Longrightarrow> recordGet updates k = v"
  by (simp add: recordGet_def)

lemma recordGet_distinct:
  "distinct (map fst updates) \<Longrightarrow>
   map (\<lambda>k. (f k, recordGet updates k)) (map fst updates) = map (\<lambda>(k, v). (f k, v)) updates"
  by (auto simp: recordGet_entry)

lemma scopeKeys_distinct:
  "distinct (map fst updates) \<Longrightarrow>
   scopeKeys u updates (map fst updates) [] = map (\<lambda>(k, v). (expensePath u k, v)) updates"
proof -
  assume d: "distinct (map fst updates)"
  have "scopeKeys u updates (map fst updates) []
      = [] @ map (\<lambda>k. (expensePath u k, recordGet updates k)) (map fst updates)"
    using d by (intro scopeKeys_append) simp_all
  also have "\<dots> = map (\<lambda>(k, v). (expensePath u k, v)) updates"
    using recordGet_distinct [OF d, of "expensePath u"] by simp
  finally show ?thesis .
qed

lemma pushKeys_append:
  "length ks = length es \<Longrightarrow> distinct ks \<Longrightarrow> [] \<notin> set ks \<Longrightarrow>
   (\<forall>i < length es. keygen (n + i) = Some (ks ! i)) \<Longrightarrow>
   (\<forall>k \<in> set ks. expensePath u k \<notin> fst ` set updates) \<Longrightarrow>
   pushKeys keygen u es n updates
     = (n + length es, updates @ zip (map (expensePath u) ks) (map Some es))"
proof (induction es arbitrary: ks n updates)
  case Nil
  then show ?case by simp
next
  case (Cons e es)
  then obtain k ks' where ks: "ks = k # ks'" by (cases ks) auto
  have kg: "keygen n = Some k"
    using Cons.prems(4) ks by auto
  have rest: "\<forall>i < length es. keygen (Suc n + i) = Some (ks' ! i)"
  proof (intro allI impI)
    fix i assume "i < length es"
    then have "Suc i < length (e # es)" by simp
    with Cons.prems(4) have "keygen (n + Suc i) = Some (ks ! Suc i)" by blast
    then show "keygen (Suc n + i) = Some (ks' ! i)" using ks by simp
  qed
  have k: "k \<noteq> []" using Cons.prems(3) ks by auto
  have fresh: "expensePath u k \<notin> fst ` set updates" using Cons.prems(5) ks by simp
  have "\<forall>k' \<in> set ks'. expensePath u k' \<notin> fst ` set (updates @ [(expensePath u k, Some e)])"
    using Cons.prems(2,5) ks by (auto simp: expensePath_inj)
  with Cons.IH [of ks' "Suc n" "updates @ [(expensePath u k, Some e)]"] Cons.prems(1,2,3) ks rest
  have "pushKeys keygen u es (Suc n) (updates @ [(expensePath u k, Some e)])
     = (Suc n + length es, (updates @ [(expensePath u k, Some e)]) @ zip (map (expensePath u) ks') (map Some es))"
    by simp
  then show ?case using kg k fresh ks by (simp add: update_fresh)
qed

lemma debounceTime_subseq: "subseq (debounceTime d es) (map (\<lambda>(t, x). (t + d, x)) es)"
proof (induction d es rule: debounceTime.induct)
  case (1 d)
  show ?case by simp
next
  case (2 d t x)
  show ?case by simp
next
  case (3 d t x t' y rest)
  show ?case
  proof (cases "t' < t + d")
    case True
    with "3.IH"(1) have "subseq (debounceTime d ((t', y) # rest))
        (map (\<lambda>(t, x). (t + d, x)) ((t', y) # rest))" by simp
    then have "subseq (debounceTime d ((t', y) # rest))
        ((t + d, x) # map (\<lambda>(t, x). (t + d, x)) ((t', y) # rest))"
      by (rule list_emb_Cons)
    with True show ?thesis by simp
  next
    case False
    with "3.IH"(2) have "subseq (debounceTime d ((t', y) # rest))
        (map (\<lambda>(t, x). (t + d, x)) ((t', y) # rest))" by simp
    then have "subseq ((t + d, x) # debounceTime d ((t', y) # rest))
        ((t + d, x) # map (\<lambda>(t, x). (t + d, x)) ((t', y) # rest))"
      by simp
    with False show ?thesis by simp
  qed
qed

lemma distinctFrom_subseq: "subseq (distinctFrom c p xs) xs"
proof (induction xs arbitrary: p)
  case Nil
  show ?case by simp
next
  case (Cons x xs)
  show ?case
  proof (cases "c p x")
    case True
    have "subseq (distinctFrom c p xs) (x # xs)"
      using Cons.IH [of p] by (rule list_emb_Cons)
    with True show ?thesis by simp
  next
    case False
    with Cons.IH [of x] show ?thesis by simp
  qed
qed

lemma distinctUntilChanged_subseq: "subseq (distinctUntilChanged c xs) xs"
proof (cases xs)
  case Nil
  then show ?thesis by simp
next
  case (Cons x rest)
  then show ?thesis using distinctFrom_subseq [of c x rest] by simp
qed

lemma distinctFrom_remdups_adj:
  "map f (x # distinctFrom (\<lambda>a b. f a = f b) x xs) = remdups_adj (f x # map f xs)"
proof (induction xs arbitrary: x)
  case Nil
  show ?case by simp
next
  case (Cons y ys)
  show ?case
  proof (cases "f x = f y")
    case True
    with Cons.IH [of x] show ?thesis by simp
  next
    case False
    with Cons.IH [of y] show ?thesis by simp
  qed
qed

lemma distinctUntilChanged_remdups_adj:
  "map f (distinctUntilChanged (\<lambda>a b. f a = f b) xs) = remdups_adj (map f xs)"
proof (cases xs)
  case Nil
  then show ?thesis by simp
next
  case (Cons x rest)
  then show ?thesis using distinctFrom_remdups_adj [of f x rest] by simp
qed

lemma subseq_member: "subseq xs ys \<Longrightarrow> x \<in> set xs \<Longrightarrow> x \<in> set ys"
  by (erule list_emb_set) auto

lemma debounceTime_times:
  assumes "e \<in> set (debounceTime d es)"
  shows "\<exists>t x. (t, x) \<in> set es \<and> e = (t + d, x)"
proof -
  have "e \<in> set (map (\<lambda>(t, x). (t + d, x)) es)"
    using debounceTime_subseq [of d es] assms by (rule subseq_member)
  then show ?thesis by auto
qed

lemma debounceTime_spaced:
  "sorted (map fst es) \<Longrightarrow> sorted_wrt (\<lambda>a b. fst a + d \<le> fst b) (debounceTime d es)"
proof (induction d es rule: debounceTime.induct)
  case (1 d)
  then show ?case by simp
next
  case (2 d t x)
  then show ?case by simp
next
  case (3 d t x t' y rest)
  have s: "sorted (map fst ((t', y) # rest))" using "3.prems" by simp
  show ?case
  proof (cases "t' < t + d")
    case True
    with "3.IH"(1) s show ?thesis by simp
  next
    case False
    have far: "t + d + d \<le> fst e" if "e \<in> set (debounceTime d ((t', y) # rest))" for e
    proof -
      from debounceTime_times [OF that] obtain u z
        where u: "(u, z) \<in> set ((t', y) # rest)" and e: "e = (u + d, z)" by blast
      from u have "u \<in> set (map fst ((t', y) # rest))" by force
      with s have "t' \<le> u" by auto
      with False e show ?thesis by simp
    qed
    from False "3.IH"(2) s
    have "sorted_wrt (\<lambda>a b. fst a + d \<le> fst b) (debounceTime d ((t', y) # rest))" by simp
    with far False show ?thesis by simp
  qed
qed

lemma sorted_wrt_subseq_keep: "subseq xs ys \<Longrightarrow> sorted_wrt P ys \<Longrightarrow> sorted_wrt P xs"
proof (induction rule: list_emb.induct)
  case (list_emb_Nil ys)
  then show ?case by simp
next
  case (list_emb_Cons xs ys y)
  then show ?case by simp
next
  case (list_emb_Cons2 x y xs ys)
  then have xy: "x = y" and sub: "subseq xs ys" by simp_all
  from list_emb_Cons2 have "sorted_wrt P xs" by simp
  moreover have "\<forall>z \<in> set xs. P x z"
    using sub list_emb_Cons2.prems xy by (auto dest: subseq_member)
  ultimately show ?case by simp
qed

lemma debounceTime_burst:
  "es \<noteq> [] \<Longrightarrow> successively (\<lambda>a b. fst b < fst a + d) es \<Longrightarrow>
   debounceTime d es = [(fst (last es) + d, snd (last es))]"
proof (induction d es rule: debounceTime.induct)
  case (1 d)
  then show ?case by simp
next
  case (2 d t x)
  then show ?case by simp
next
  case (3 d t x t' y rest)
  from "3.prems"(2) have near: "t' < t + d"
    and rest: "successively (\<lambda>a b. fst b < fst a + d) ((t', y) # rest)"
    by simp_all
  with "3.IH"(1) show ?case by simp
qed

lemma pushKeys_count: "fst (pushKeys keygen u es n updates) = n + length es"
  by (induction es arbitrary: n updates) (simp_all split: option.split)

lemmas world_ops =
  setUser_def setUserId_def setUserDetails_def setExpensesData_def setTimeFrameFilter_def
  setFilesImported_def setCategoriesSignal_def setExpenseSourcesData_def
  announceCategoriesAdded_def saveNewCategories_def saveNewExpenseSourceTypes_def
  getUserDetailsById_def openSnackBar_def onUpdateToCategories_def

lemma resolveUid_isUpdatingCategories:
  "resolveUid (w\<lparr>isUpdatingCategories := b\<rparr>) = resolveUid w"
  by (simp add: resolveUid_def split: option.split)

section \<open>DefaultsPolicy\<close>

text \<open>
  Claim C8. The option entries built for a taxonomy carry the given values in order, and
  the \<open>removable\<close> flag of the entry for a value \<open>v\<close> is \<open>v \<notin> set defaults\<close>: false
  exactly when \<open>v\<close> is one of the defaults of that taxonomy (the category defaults for
  categories, the source-type defaults for source types), by equality of strings, which
  distinguishes case. In particular every entry built from the default category list itself
  is non-removable.
\<close>

theorem removable_iff_not_default:
  "map chip_value (categoriesSignal (setCategoriesOptions dc arr w)) = arr
   \<and> map removable (categoriesSignal (setCategoriesOptions dc arr w)) = map (\<lambda>v. v \<notin> set dc) arr
   \<and> map chip_value (sourceTypeSignal (setSourceTypeOptions dt arr w)) = arr
   \<and> map removable (sourceTypeSignal (setSourceTypeOptions dt arr w)) = map (\<lambda>v. v \<notin> set dt) arr
   \<and> map removable (categoriesSignal (setCategoriesOptions dc dc w)) = replicate (length dc) False"
proof -
  have c: "categoriesSignal (setCategoriesOptions dc xs w)
      = map (\<lambda>c. \<lparr>chip_value = c, removable = c \<notin> set dc\<rparr>) xs" for xs
    by (simp add: setCategoriesOptions_def Let_def world_ops lodash_includes_def)
  have t: "sourceTypeSignal (setSourceTypeOptions dt arr w)
      = map (\<lambda>c. \<lparr>chip_value = c, removable = c \<notin> set dt\<rparr>) arr"
    by (simp add: setSourceTypeOptions_def Let_def lodash_includes_def)
  have "map (\<lambda>v. v \<notin> set dc) dc = map (\<lambda>v. False) dc"
    by (simp only: map_eq_conv) simp
  then have d: "map (\<lambda>v. v \<notin> set dc) dc = replicate (length dc) False"
    by (simp add: map_replicate_const)
  show ?thesis by (simp add: c t d comp_def)
qed

theorem removable_iff_not_default_witness:
  "map removable (categoriesSignal
      (setCategoriesOptions [''Food'', ''Rent''] [''Food'', ''food'', ''Pets'', ''Rent''] exampleWorld))
     = [False, True, True, False]
   \<and> map removable (sourceTypeSignal
      (setSourceTypeOptions [''Cash''] [''Card'', ''Cash''] exampleWorld)) = [True, False]"
  using removable_iff_not_default
    [of "[''Food'', ''Rent'']" "[''Food'', ''food'', ''Pets'', ''Rent'']" exampleWorld "[''Cash'']"]
    removable_iff_not_default
    [of "[''Food'', ''Rent'']" "[''Card'', ''Cash'']" exampleWorld "[''Cash'']"]
  by simp

section \<open>Loading a user's settings\<close>

text \<open>
  Claim C2. When a user id is available and the stored \<open>categories\<close> field is absent, or
  normalizes to the empty list, a successful load gives the settings component exactly the
  default category list, in order, every entry non-removable, and gives the shared data
  service the same default list (from either component). Source types fall back to their
  defaults in the same way, while the imported-files list is the normalized stored value
  with no fallback.
\<close>

theorem load_applies_defaults:
  assumes "resolveUid w = Some u"
    and "normalizeStringList (getProp (nullishOr snapshotVal (JObj [])) ''categories'') = []"
  shows "categoriesSignal (getAllUserDetails dc dt (Fulfilled snapshotVal) w)
           = map (\<lambda>c. \<lparr>chip_value = c, removable = False\<rparr>) dc
       \<and> ds_categories (getAllUserDetails dc dt (Fulfilled snapshotVal) w) = dc
       \<and> ds_categories (layout_getAllUserDetails dc dt (Fulfilled snapshotVal) w) = dc
       \<and> ds_expenseSources (layout_getAllUserDetails dc dt (Fulfilled snapshotVal) w)
           = (if normalizeStringList (getProp (nullishOr snapshotVal (JObj [])) ''types'') = []
              then dt
              else normalizeStringList (getProp (nullishOr snapshotVal (JObj [])) ''types''))
       \<and> map chip_value (sourceTypeSignal (getAllUserDetails dc dt (Fulfilled snapshotVal) w))
           = (if normalizeStringList (getProp (nullishOr snapshotVal (JObj [])) ''types'') = []
              then dt
              else normalizeStringList (getProp (nullishOr snapshotVal (JObj [])) ''types''))
       \<and> ds_filesImported (layout_getAllUserDetails dc dt (Fulfilled snapshotVal) w)
           = normalizeStringList (getProp (nullishOr snapshotVal (JObj [])) ''filesImported'')"
proof -
  let ?data = "nullishOr snapshotVal (JObj [])"
  have opts: "map (\<lambda>c. \<lparr>chip_value = c, removable = \<not> lodash_includes dc c\<rparr>) dc
      = map (\<lambda>c. \<lparr>chip_value = c, removable = False\<rparr>) dc"
    by (simp add: lodash_includes_def)
  have a: "categoriesSignal (getAllUserDetails dc dt (Fulfilled snapshotVal) w)
           = map (\<lambda>c. \<lparr>chip_value = c, removable = False\<rparr>) dc"
    using assms opts
    by (simp add: getAllUserDetails_def getAllUserDetails_then_def setCategoriesOptions_def
        setSourceTypeOptions_def Let_def world_ops)
  have b: "ds_categories (getAllUserDetails dc dt (Fulfilled snapshotVal) w) = dc"
    using assms
    by (simp add: getAllUserDetails_def getAllUserDetails_then_def setCategoriesOptions_def
        setSourceTypeOptions_def Let_def world_ops)
  have c: "ds_categories (layout_getAllUserDetails dc dt (Fulfilled snapshotVal) w) = dc"
    using assms
    by (simp add: layout_getAllUserDetails_def layout_getAllUserDetails_then_def Let_def world_ops)
  have d: "ds_expenseSources (layout_getAllUserDetails dc dt (Fulfilled snapshotVal) w)
           = (if normalizeStringList (getProp ?data ''types'') = [] then dt
              else normalizeStringList (getProp ?data ''types''))"
    using assms(1)
    by (simp add: layout_getAllUserDetails_def layout_getAllUserDetails_then_def Let_def world_ops)
  have e: "map chip_value (sourceTypeSignal (getAllUserDetails dc dt (Fulfilled snapshotVal) w))
           = (if normalizeStringList (getProp ?data ''types'') = [] then dt
              else normalizeStringList (getProp ?data ''types''))"
    using assms(1)
    by (simp add: getAllUserDetails_def getAllUserDetails_then_def setCategoriesOptions_def
        setSourceTypeOptions_def Let_def world_ops comp_def)
  have f: "ds_filesImported (layout_getAllUserDetails dc dt (Fulfilled snapshotVal) w)
           = normalizeStringList (getProp ?data ''filesImported'')"
    using assms(1)
    by (simp add: layout_getAllUserDetails_def layout_getAllUserDetails_then_def Let_def world_ops)
  from a b c d e f show ?thesis by blast
qed

theorem load_applies_defaults_witness:
  "categoriesSignal (getAllUserDetails [''Food'', ''Rent''] [''Cash'']
       (Fulfilled (JObj [(''firstName'', JStr ''Ada'')])) exampleWorld)
     = [\<lparr>chip_value = ''Food'', removable = False\<rparr>, \<lparr>chip_value = ''Rent'', removable = False\<rparr>]
   \<and> ds_categories (layout_getAllUserDetails [''Food'', ''Rent''] [''Cash'']
       (Fulfilled (JObj [(''firstName'', JStr ''Ada'')])) exampleWorld) = [''Food'', ''Rent'']
   \<and> ds_expenseSources (layout_getAllUserDetails [''Food'', ''Rent''] [''Cash'']
       (Fulfilled (JObj [(''firstName'', JStr ''Ada'')])) exampleWorld) = [''Cash'']
   \<and> ds_filesImported (layout_getAllUserDetails [''Food'', ''Rent''] [''Cash'']
       (Fulfilled (JObj [(''firstName'', JStr ''Ada'')])) exampleWorld) = []"
proof -
  have u: "resolveUid exampleWorld = Some ''u1''"
    by (simp add: resolveUid_def exampleWorld_def)
  have n: "normalizeStringList
      (getProp (nullishOr (JObj [(''firstName'', JStr ''Ada'')]) (JObj [])) ''categories'') = []"
    by simp
  show ?thesis
    using load_applies_defaults [OF u n, of "[''Food'', ''Rent'']" "[''Cash'']"]
    by simp
qed

section \<open>Batched expense writes\<close>

text \<open>
  Claim C3. For an updates record (its keys distinct, as those of a JavaScript object are),
  \<open>batchUpdateExpenses\<close> called with a user id issues exactly one store call, a
  multi-path update with one entry \<^verbatim>\<open>users/{uid}/expenses/{key}\<close> per key, in the order of
  the record, each carrying the record's own value: \<open>None\<close> (\<^verbatim>\<open>null\<close>, the store's delete
  marker) or \<open>Some\<close> expense (create or replace). Called without a user id, it takes the id
  of the authenticated user and issues the same call; with no authenticated user (or one
  with an empty id) the returned promise is rejected with \<^verbatim>\<open>Error('Not signed in')\<close> and
  the state, store calls included, is unchanged.
\<close>

theorem batchUpdateExpenses_single_update:
  assumes "distinct (map fst updates)"
  shows "batchUpdateExpenses (UserIdArg u) (Some updates) authUser remote w
           = (remote, w\<lparr>db_calls := db_calls w
                @ [MultiUpdate (map (\<lambda>(k, v). (''users/'' @ u @ ''/expenses/'' @ k, v)) updates)]\<rparr>)
       \<and> (u \<noteq> [] \<longrightarrow>
            batchUpdateExpenses (UpdatesArg updates) b (Some \<lparr>uid = u\<rparr>) remote w
              = (remote, w\<lparr>db_calls := db_calls w
                @ [MultiUpdate (map (\<lambda>(k, v). (''users/'' @ u @ ''/expenses/'' @ k, v)) updates)]\<rparr>))
       \<and> batchUpdateExpenses (UpdatesArg updates) b None remote w
              = (Rejected (JsError ''Not signed in''), w)
       \<and> batchUpdateExpenses (UpdatesArg updates) b (Some \<lparr>uid = []\<rparr>) remote w
              = (Rejected (JsError ''Not signed in''), w)"
proof -
  have scoped: "scopeKeys u updates (map fst updates) []
      = map (\<lambda>(k, v). (''users/'' @ u @ ''/expenses/'' @ k, v)) updates"
    using scopeKeys_distinct [OF assms, of u] by (simp add: expensePath_def)
  have new: "batchUpdateExpenses (UserIdArg u) (Some updates) authUser remote w
           = (remote, w\<lparr>db_calls := db_calls w
                @ [MultiUpdate (map (\<lambda>(k, v). (''users/'' @ u @ ''/expenses/'' @ k, v)) updates)]\<rparr>)"
    by (simp add: batchUpdateExpenses_def scoped)
  have legacy: "u \<noteq> [] \<longrightarrow>
            batchUpdateExpenses (UpdatesArg updates) b (Some \<lparr>uid = u\<rparr>) remote w
              = (remote, w\<lparr>db_calls := db_calls w
                @ [MultiUpdate (map (\<lambda>(k, v). (''users/'' @ u @ ''/expenses/'' @ k, v)) updates)]\<rparr>)"
    by (simp add: batchUpdateExpenses_def scoped)
  have none: "batchUpdateExpenses (UpdatesArg updates) b None remote w
              = (Rejected (JsError ''Not signed in''), w)"
    by (simp add: batchUpdateExpenses_def)
  have empty: "batchUpdateExpenses (UpdatesArg updates) b (Some \<lparr>uid = []\<rparr>) remote w
              = (Rejected (JsError ''Not signed in''), w)"
    by (simp add: batchUpdateExpenses_def)
  from new legacy none empty show ?thesis by blast
qed

theorem batchUpdateExpenses_single_update_witness:
  "db_calls (snd (batchUpdateExpenses (UserIdArg ''u1'')
       (Some [(''k1'', Some (5::nat)), (''k2'', None)]) None (Fulfilled ()) exampleWorld))
     = [MultiUpdate [(''users/u1/expenses/k1'', Some 5), (''users/u1/expenses/k2'', None)]]
   \<and> db_calls (snd (batchUpdateExpenses (UpdatesArg [(''k1'', Some (5::nat)), (''k2'', None)])
       None (Some \<lparr>uid = ''u1''\<rparr>) (Fulfilled ()) exampleWorld))
     = [MultiUpdate [(''users/u1/expenses/k1'', Some 5), (''users/u1/expenses/k2'', None)]]
   \<and> batchUpdateExpenses (UpdatesArg [(''k1'', Some (5::nat)), (''k2'', None)])
       None None (Fulfilled ()) exampleWorld
     = (Rejected (JsError ''Not signed in''), exampleWorld)"
proof -
  have d: "distinct (map fst [(''k1'', Some (5::nat)), (''k2'', None)])" by simp
  show ?thesis
    using batchUpdateExpenses_single_update
      [OF d, of "''u1''" None "Fulfilled ()" exampleWorld None]
    by (simp add: exampleWorld_def)
qed

text \<open>
  Claim C7. Whatever keys the store hands out, \<open>batchPushExpensesWithBatch\<close> allocates
  one key per expense (the allocation counter advances by the number of expenses), issues
  exactly one store call, a multi-path update, and settles as that call does. When the keys
  \<open>ks\<close> allocated are non-empty and distinct, as generated keys are, the update pairs the
  path \<^verbatim>\<open>users/{userId}/expenses/{key}\<close> of the \<open>i\<close>-th key with the \<open>i\<close>-th expense,
  for all of the expenses.
\<close>

theorem batchPushExpensesWithBatch_single_update:
  "fst (batchPushExpensesWithBatch keygen expenses u remote w) = remote
   \<and> db_pushCount (snd (batchPushExpensesWithBatch keygen expenses u remote w))
       = db_pushCount w + length expenses
   \<and> (\<exists>updates. db_calls (snd (batchPushExpensesWithBatch keygen expenses u remote w))
          = db_calls w @ [MultiUpdate updates])
   \<and> (length ks = length expenses \<and> distinct ks \<and> [] \<notin> set ks
        \<and> (\<forall>i < length expenses. keygen (db_pushCount w + i) = Some (ks ! i))
       \<longrightarrow> batchPushExpensesWithBatch keygen expenses u remote w
           = (remote,
              w\<lparr>db_pushCount := db_pushCount w + length expenses,
                db_calls := db_calls w
                  @ [MultiUpdate (zip (map (\<lambda>k. ''users/'' @ u @ ''/expenses/'' @ k) ks)
                                    (map Some expenses))]\<rparr>))"
proof -
  obtain n updates where p: "pushKeys keygen u expenses (db_pushCount w) [] = (n, updates)"
    by (cases "pushKeys keygen u expenses (db_pushCount w) []")
  have n: "n = db_pushCount w + length expenses"
    using pushKeys_count [of keygen u expenses "db_pushCount w" "[]"] p by simp
  have r: "batchPushExpensesWithBatch keygen expenses u remote w
      = (remote, w\<lparr>db_pushCount := n, db_calls := db_calls w @ [MultiUpdate updates]\<rparr>)"
    by (simp add: batchPushExpensesWithBatch_def p)
  have full: "batchPushExpensesWithBatch keygen expenses u remote w
           = (remote,
              w\<lparr>db_pushCount := db_pushCount w + length expenses,
                db_calls := db_calls w
                  @ [MultiUpdate (zip (map (\<lambda>k. ''users/'' @ u @ ''/expenses/'' @ k) ks)
                                    (map Some expenses))]\<rparr>)"
    if h: "length ks = length expenses" "distinct ks" "[] \<notin> set ks"
      "\<forall>i < length expenses. keygen (db_pushCount w + i) = Some (ks ! i)"
  proof -
    have "pushKeys keygen u expenses (db_pushCount w) []
        = (db_pushCount w + length expenses, [] @ zip (map (expensePath u) ks) (map Some expenses))"
      using h by (intro pushKeys_append) simp_all
    moreover have "map (expensePath u) ks = map (\<lambda>k. ''users/'' @ u @ ''/expenses/'' @ k) ks"
      by (simp add: expensePath_def)
    ultimately show ?thesis
      by (simp add: batchPushExpensesWithBatch_def)
  qed
  from r n full show ?thesis by simp
qed

theorem batchPushExpensesWithBatch_single_update_witness:
  "batchPushExpensesWithBatch exampleKeygen [10, 20 :: nat] ''u1'' (Fulfilled ()) exampleWorld
     = (Fulfilled (),
        exampleWorld\<lparr>db_pushCount := 2,
          db_calls := [MultiUpdate [(''users/u1/expenses/-Na'', Some 10),
                                    (''users/u1/expenses/-Nb'', Some 20)]]\<rparr>)"
proof -
  have l: "length [''-Na'', ''-Nb''] = length [10, 20 :: nat]" by simp
  have d: "distinct [''-Na'', ''-Nb'']" by simp
  have n: "[] \<notin> set [''-Na'', ''-Nb'']" by simp
  have k: "\<forall>i < length [10, 20 :: nat].
      exampleKeygen (db_pushCount exampleWorld + i) = Some ([''-Na'', ''-Nb''] ! i)"
    by (simp add: exampleKeygen_def exampleWorld_def less_Suc_eq)
  show ?thesis
    using l d n k
      batchPushExpensesWithBatch_single_update
        [of exampleKeygen "[10, 20 :: nat]" "''u1''" "Fulfilled ()" exampleWorld "[''-Na'', ''-Nb'']"]
    by (simp add: exampleWorld_def)
qed

section \<open>Expense change stream\<close>

text \<open>
  Claim C6. For every change stream of a user's expense list: every emission is an event of
  the stream, delivered 500 time units after it arrived, and the emissions keep the order of
  the stream; the serialized contents emitted are those of the debounced stream with each
  run of adjacent equal contents reduced to its first member, so no emission has the
  serialized content of the emission before it; when the events arrive in time order, any
  two emissions are at least 500 time units apart, so no window of 500 holds more than one;
  a burst, in which each event follows the one before within 500, gives exactly one
  emission, its final state. In particular two events with the same serialized content
  give exactly one emission, whether they fall in one quiet window (the later one is
  emitted) or in two (the second emission is suppressed).
\<close>

theorem getUserExpenses_coalesces:
  "subseq (getUserExpenses stringify snapshotChanges userId)
      (map (\<lambda>(t, x). (t + 500, x)) (snapshotChanges (''users/'' @ userId @ ''/expenses'')))
   \<and> map (stringify \<circ> snd) (getUserExpenses stringify snapshotChanges userId)
       = remdups_adj (map (stringify \<circ> snd)
           (debounceTime 500 (snapshotChanges (''users/'' @ userId @ ''/expenses''))))
   \<and> distinct_adj (map (stringify \<circ> snd) (getUserExpenses stringify snapshotChanges userId))
   \<and> (sorted (map fst (snapshotChanges (''users/'' @ userId @ ''/expenses'')))
        \<longrightarrow> sorted_wrt (\<lambda>a b. fst a + 500 \<le> fst b)
              (getUserExpenses stringify snapshotChanges userId))
   \<and> (snapshotChanges (''users/'' @ userId @ ''/expenses'') \<noteq> []
        \<and> successively (\<lambda>a b. fst b < fst a + 500)
              (snapshotChanges (''users/'' @ userId @ ''/expenses''))
        \<longrightarrow> getUserExpenses stringify snapshotChanges userId
            = [(fst (last (snapshotChanges (''users/'' @ userId @ ''/expenses''))) + 500,
                snd (last (snapshotChanges (''users/'' @ userId @ ''/expenses''))))])
   \<and> (snapshotChanges (''users/'' @ userId @ ''/expenses'') = [(t1, x), (t2, y)]
        \<and> t2 < t1 + 500 \<and> stringify x = stringify y
        \<longrightarrow> getUserExpenses stringify snapshotChanges userId = [(t2 + 500, y)])
   \<and> (snapshotChanges (''users/'' @ userId @ ''/expenses'') = [(t1, x), (t2, y)]
        \<and> t1 + 500 \<le> t2 \<and> stringify x = stringify y
        \<longrightarrow> getUserExpenses stringify snapshotChanges userId = [(t1 + 500, x)])"
proof -
  let ?es = "snapshotChanges (''users/'' @ userId @ ''/expenses'')"
  let ?same = "\<lambda>prev curr. stringify (snd prev) = stringify (snd curr)"
  let ?out = "getUserExpenses stringify snapshotChanges userId"
  have out: "?out = distinctUntilChanged ?same (debounceTime 500 ?es)"
    by (simp add: getUserExpenses_def)
  have sub: "subseq ?out (debounceTime 500 ?es)"
    unfolding out by (rule distinctUntilChanged_subseq)
  have ord: "subseq ?out (map (\<lambda>(t, x). (t + 500, x)) ?es)"
    using sub debounceTime_subseq [of 500 ?es] by (rule subseq_order.trans)
  have ser: "map (stringify \<circ> snd) ?out
      = remdups_adj (map (stringify \<circ> snd) (debounceTime 500 ?es))"
    unfolding out
    using distinctUntilChanged_remdups_adj [of "stringify \<circ> snd" "debounceTime 500 ?es"]
    by simp
  have adj: "distinct_adj (map (stringify \<circ> snd) ?out)"
    unfolding ser by (rule distinct_adj_remdups_adj)
  have spaced: "sorted_wrt (\<lambda>a b. fst a + 500 \<le> fst b) ?out" if "sorted (map fst ?es)"
    using sub debounceTime_spaced [OF that, of 500] by (rule sorted_wrt_subseq_keep)
  have burst: "?out = [(fst (last ?es) + 500, snd (last ?es))]"
    if "?es \<noteq> []" "successively (\<lambda>a b. fst b < fst a + 500) ?es"
    unfolding out using debounceTime_burst [OF that] by simp
  have two_near: "?out = [(t2 + 500, y)]"
    if "?es = [(t1, x), (t2, y)]" "t2 < t1 + 500"
    unfolding out using that by simp
  have two_far: "?out = [(t1 + 500, x)]"
    if "?es = [(t1, x), (t2, y)]" "t1 + 500 \<le> t2" "stringify x = stringify y"
    unfolding out using that by simp
  from ord ser adj spaced burst two_near two_far show ?thesis by blast
qed

theorem getUserExpenses_coalesces_witness:
  "getUserExpenses exampleStringify exampleChanges ''u1''
     = [(950, [''a'', ''b'']), (3500, [''c''])]
   \<and> getUserExpenses exampleStringify
        (\<lambda>p. [(10, [''a'']), (200, [''a''])]) ''u1'' = [(700, [''a''])]
   \<and> getUserExpenses exampleStringify
        (\<lambda>p. [(10, [''a'']), (900, [''a''])]) ''u1'' = [(510, [''a''])]"
proof -
  have a: "sorted (map fst (exampleChanges (''users/'' @ ''u1'' @ ''/expenses'')))"
    by (simp add: exampleChanges_def)
  have b: "(\<lambda>p. [(10::nat, [''a'']), (200, [''a''])]) (''users/'' @ ''u1'' @ ''/expenses'')
       = [(10, [''a'']), (200, [''a''])] \<and> (200::nat) < 10 + 500
       \<and> exampleStringify [''a''] = exampleStringify [''a'']" by simp
  have c: "(\<lambda>p. [(10::nat, [''a'']), (900, [''a''])]) (''users/'' @ ''u1'' @ ''/expenses'')
       = [(10, [''a'']), (900, [''a''])] \<and> (10::nat) + 500 \<le> 900
       \<and> exampleStringify [''a''] = exampleStringify [''a'']" by simp
  show ?thesis
    using a b c
      getUserExpenses_coalesces [of exampleStringify exampleChanges "''u1''"]
      getUserExpenses_coalesces [of exampleStringify "\<lambda>p. [(10, [''a'']), (200, [''a''])]" "''u1''"
         10 "[''a'']" 200 "[''a'']"]
      getUserExpenses_coalesces [of exampleStringify "\<lambda>p. [(10, [''a'']), (900, [''a''])]" "''u1''"
         10 "[''a'']" 900 "[''a'']"]
    by (simp add: getUserExpenses_def exampleChanges_def exampleStringify_def)
qed

section \<open>Saving categories\<close>

text \<open>
  Claim C4. With a user id available, a save that the store accepts writes the values of
  the working copy to \<^verbatim>\<open>users/{uid}/categories\<close>, makes the committed snapshot (the
  component's copy and the shared data service's list) equal to the working copy, and sends
  one message on the categories channel. A save that the store rejects leaves the
  committed snapshot, the shared list and the working copy as they were, sends no message
  on the categories channel, and shows the rejection's message.
\<close>

theorem saveCategories_commit_or_keep:
  assumes "resolveUid w = Some u"
  shows "copyCategoriesSignal (saveCategories (Fulfilled ()) w) = categoriesSignal w
       \<and> ds_categories (saveCategories (Fulfilled ()) w) = map chip_value (categoriesSignal w)
       \<and> categoriesSignal (saveCategories (Fulfilled ()) w) = categoriesSignal w
       \<and> categoriesAddedSource (saveCategories (Fulfilled ()) w)
           = categoriesAddedSource w @ [''Categories Added'']
       \<and> db_calls (saveCategories (Fulfilled ()) w)
           = db_calls w @ [SetList (''users/'' @ u @ ''/categories'') (map chip_value (categoriesSignal w))]
       \<and> copyCategoriesSignal (saveCategories (Rejected e) w) = copyCategoriesSignal w
       \<and> ds_categories (saveCategories (Rejected e) w) = ds_categories w
       \<and> categoriesSignal (saveCategories (Rejected e) w) = categoriesSignal w
       \<and> categoriesAddedSource (saveCategories (Rejected e) w) = categoriesAddedSource w
       \<and> snackBar_opened (saveCategories (Rejected e) w)
           = snackBar_opened w @ [(errorMessage e, 2000)]"
proof -
  have ok: "saveCategories (Fulfilled ()) w
      = saveCategories_then
          (saveNewCategories (map chip_value (categoriesSignal w)) u (w\<lparr>isUpdatingCategories := True\<rparr>))"
    using assms by (simp add: saveCategories_def Let_def resolveUid_isUpdatingCategories)
  have ko: "saveCategories (Rejected e) w
      = saveCategories_catch e
          (saveNewCategories (map chip_value (categoriesSignal w)) u (w\<lparr>isUpdatingCategories := True\<rparr>))"
    using assms by (simp add: saveCategories_def Let_def resolveUid_isUpdatingCategories)
  show ?thesis
    unfolding ok ko
    by (simp add: saveCategories_then_def saveCategories_catch_def Let_def world_ops)
qed

theorem saveCategories_commit_or_keep_witness:
  "copyCategoriesSignal (saveCategories (Fulfilled ()) exampleWorld)
     = [\<lparr>chip_value = ''Pets'', removable = True\<rparr>]
   \<and> db_calls (saveCategories (Fulfilled ()) exampleWorld)
     = [SetList ''users/u1/categories'' [''Pets'']]
   \<and> copyCategoriesSignal (saveCategories (Rejected (JsError ''PERMISSION_DENIED'')) exampleWorld) = []
   \<and> categoriesSignal (saveCategories (Rejected (JsError ''PERMISSION_DENIED'')) exampleWorld)
     = [\<lparr>chip_value = ''Pets'', removable = True\<rparr>]
   \<and> snackBar_opened (saveCategories (Rejected (JsError ''PERMISSION_DENIED'')) exampleWorld)
     = [(''PERMISSION_DENIED'', 2000)]"
proof -
  have u: "resolveUid exampleWorld = Some ''u1''"
    by (simp add: resolveUid_def exampleWorld_def)
  show ?thesis
    using saveCategories_commit_or_keep [OF u, of "JsError ''PERMISSION_DENIED''"]
    by (simp add: exampleWorld_def)
qed

text \<open>
  Claim C5, as the code has it. When no user id is available (no user or an empty id, and
  no stored id or an empty one), a call of \<open>saveCategories\<close> returns normally: nothing is
  thrown or rejected. It shows \<^verbatim>\<open>No user id found.\<close> in the snack bar and resets its
  flag, and does nothing else: whatever the working list and however the store would have
  answered, no store call is issued, no key is allocated, and \<open>isUpdatingCategories\<close> is
  false on return.
\<close>

theorem saveCategories_missing_user:
  assumes "resolveUid w = None"
  shows "saveCategories_outcome remote w = Returned
    \<and> saveCategories remote w
      = w\<lparr>snackBar_opened := snackBar_opened w @ [(''No user id found.'', 2000)],
          isUpdatingCategories := False\<rparr>
    \<and> db_calls (saveCategories remote w) = db_calls w
    \<and> db_pushCount (saveCategories remote w) = db_pushCount w
    \<and> isUpdatingCategories (saveCategories remote w) = False"
  using assms
  by (simp add: saveCategories_def saveCategories_outcome_def Let_def
      resolveUid_isUpdatingCategories openSnackBar_def)

theorem saveCategories_missing_user_witness:
  "saveCategories_outcome (Fulfilled ()) signedOutWorld = Returned
   \<and> db_calls (saveCategories (Fulfilled ()) signedOutWorld) = []
   \<and> isUpdatingCategories (saveCategories (Fulfilled ()) signedOutWorld) = False
   \<and> snackBar_opened (saveCategories (Fulfilled ()) signedOutWorld) = [(''No user id found.'', 2000)]"
proof -
  have u: "resolveUid signedOutWorld = None"
    by (simp add: resolveUid_def signedOutWorld_def exampleWorld_def)
  show ?thesis
    using saveCategories_missing_user [OF u, of "Fulfilled ()"]
    by (simp add: signedOutWorld_def exampleWorld_def)
qed

text \<open>
  Without a user id the call does not fail with an error: it returns, as it does on every
  other path.
\<close>

theorem saveCategories_returns_normally:
  "resolveUid signedOutWorld = None
   \<and> saveCategories_outcome (Fulfilled ()) signedOutWorld = Returned
   \<and> saveCategories_outcome (Fulfilled ()) signedOutWorld \<noteq> Threw (JsError ''MissingUserError'')"
  by (simp add: resolveUid_def signedOutWorld_def exampleWorld_def saveCategories_outcome_def)

section \<open>Sign-out\<close>




section \<open>In-progress flags\<close>




end
